theory Spec2Isabelle
  imports Complex_Main
begin

section \<open>Prior boxes: the kernel of \<^verbatim>\<open>paddle/operators/prior_box_op.h\<close>\<close>

text \<open>
  Numbers. The kernel computes in \<^verbatim>\<open>float\<close> and \<^verbatim>\<open>double\<close>; the model computes in
  \<^typ>\<open>real\<close>, so rounding, overflow to infinity and NaN are not represented: where the
  kernel divides by zero or takes the root of a negative number, the model has HOL's
  values (\<open>x / 0 = 0\<close>, \<open>sqrt (- x) = - sqrt x\<close>). The attribute vectors \<^verbatim>\<open>min_sizes\<close> and
  \<^verbatim>\<open>max_sizes\<close> hold C++ \<^verbatim>\<open>int\<close>; the one product the kernel forms of them is checked
  against the range of a 32-bit \<^verbatim>\<open>int\<close>. Tensor extents and vector lengths are natural
  numbers.

  Undefined behaviour of the C++ (a vector read past its size, a signed overflow) is a
  value of the model: \<open>Inl\<close> of an \<open>error\<close>.
\<close>

datatype error = OutOfRange | SignedOverflow

subsection \<open>ExpandAspectRatios\<close>

definition eps :: real where
  "eps = 1 / 1000000"

text \<open>The inner loop over \<open>j\<close>: it leaves with \<open>already_exist = true\<close> at the first hit.\<close>

fun already_exist :: "real \<Rightarrow> real list \<Rightarrow> bool" where
  "already_exist ar [] = False"
| "already_exist ar (x # xs) = (if \<bar>ar - x\<bar> < eps then True else already_exist ar xs)"

text \<open>The outer loop over \<open>i\<close>, with the output vector as accumulator.\<close>

fun expand_loop :: "real list \<Rightarrow> bool \<Rightarrow> real list \<Rightarrow> real list" where
  "expand_loop [] flip_flag output_aspect_ratior = output_aspect_ratior"
| "expand_loop (ar # rest) flip_flag output_aspect_ratior =
     (if \<not> already_exist ar output_aspect_ratior
      then expand_loop rest flip_flag
             (if flip_flag then (output_aspect_ratior @ [ar]) @ [1 / ar]
              else output_aspect_ratior @ [ar])
      else expand_loop rest flip_flag output_aspect_ratior)"

definition ExpandAspectRatios :: "real list \<Rightarrow> bool \<Rightarrow> real list" where
  "ExpandAspectRatios input_aspect_ratior flip_flag =
     expand_loop input_aspect_ratior flip_flag ([] @ [1])"

subsection \<open>ClipFunctor\<close>

definition ClipFunctor :: "real \<Rightarrow> real" where
  "ClipFunctor x = min (max x 0) 1"

subsection \<open>The execution context of \<^verbatim>\<open>PriorBoxOpKernel::Compute\<close>\<close>

text \<open>
  The attributes read through \<^verbatim>\<open>ctx.Attr\<close>, and the two extents read from each of the
  tensors \<^verbatim>\<open>Image\<close> and \<^verbatim>\<open>Input\<close>.
\<close>

record ExecutionContext =
  min_sizes :: "int list"
  max_sizes :: "int list"
  aspect_ratios :: "real list"
  variances :: "real list"
  flip :: bool
  clip :: bool
  step_w :: real
  step_h :: real
  offset :: real
  img_width :: nat
  img_height :: nat
  layer_width :: nat
  layer_height :: nat

definition step_width :: "ExecutionContext \<Rightarrow> real" where
  "step_width c =
     (if step_w c = 0 \<or> step_h c = 0 then real (img_width c) / real (layer_width c)
      else step_w c)"

definition step_height :: "ExecutionContext \<Rightarrow> real" where
  "step_height c =
     (if step_w c = 0 \<or> step_h c = 0 then real (img_height c) / real (layer_height c)
      else step_h c)"

definition num_priors :: "ExecutionContext \<Rightarrow> nat" where
  "num_priors c =
     (let n = length (ExpandAspectRatios (aspect_ratios c) (flip c)) * length (min_sizes c)
      in if length (max_sizes c) > 0 then n + length (max_sizes c) else n)"

subsection \<open>The boxes tensor and the loops that fill it\<close>

text \<open>
  \<^verbatim>\<open>e_boxes\<close> is addressed by \<open>(h, w, idx, coordinate)\<close>. An entry that no statement has
  written yet is \<open>None\<close>. The extents of the tensor are set outside this file, the third
  one to the prior count; the model puts no bound on \<open>idx\<close> and
  \<open>emission_index_le_num_priors\<close> below shows that no write of a completed cell is past
  that count.
\<close>

type_synonym tensor4 = "nat \<times> nat \<times> nat \<times> nat \<Rightarrow> real option"

text \<open>The four assignments \<open>xmin\<close>, \<open>ymin\<close>, \<open>xmax\<close>, \<open>ymax\<close> at index \<open>idx\<close>.\<close>

definition write_prior ::
  "ExecutionContext \<Rightarrow> nat \<Rightarrow> nat \<Rightarrow> real \<Rightarrow> real \<Rightarrow> real \<Rightarrow> real \<Rightarrow> tensor4 \<Rightarrow> nat \<Rightarrow> tensor4" where
  "write_prior c h w center_x center_y box_width box_height e_boxes idx =
     e_boxes
       ((h, w, idx, 0) \<mapsto> (center_x - box_width / 2) / real (img_width c),
        (h, w, idx, 1) \<mapsto> (center_y - box_height / 2) / real (img_height c),
        (h, w, idx, 2) \<mapsto> (center_x + box_width / 2) / real (img_width c),
        (h, w, idx, 3) \<mapsto> (center_y + box_height / 2) / real (img_height c))"

text \<open>The loop over \<open>r\<close> ("rest of priors"); the state is the tensor and \<open>idx\<close>.\<close>

fun rest_of_priors ::
  "ExecutionContext \<Rightarrow> nat \<Rightarrow> nat \<Rightarrow> real \<Rightarrow> real \<Rightarrow> int \<Rightarrow> real list \<Rightarrow> tensor4 \<times> nat \<Rightarrow> tensor4 \<times> nat" where
  "rest_of_priors c h w center_x center_y min_size [] (e_boxes, idx) = (e_boxes, idx)"
| "rest_of_priors c h w center_x center_y min_size (ar # rest) (e_boxes, idx) =
     (if \<bar>ar - 1\<bar> < 1 / 1000000
      then rest_of_priors c h w center_x center_y min_size rest (e_boxes, idx)
      else rest_of_priors c h w center_x center_y min_size rest
             (write_prior c h w center_x center_y
                (real_of_int min_size * sqrt ar) (real_of_int min_size / sqrt ar) e_boxes idx,
              idx + 1))"

definition int_range :: "int \<Rightarrow> bool" where
  "int_range i = (- 2147483648 \<le> i \<and> i \<le> 2147483647)"

text \<open>One round of the loop over \<open>s\<close>.\<close>

definition size_body ::
  "ExecutionContext \<Rightarrow> real list \<Rightarrow> nat \<Rightarrow> nat \<Rightarrow> real \<Rightarrow> real \<Rightarrow> nat \<Rightarrow> tensor4 \<times> nat
     \<Rightarrow> error + tensor4 \<times> nat" where
  "size_body c ratios h w center_x center_y s st =
     (case st of (e_boxes, idx) \<Rightarrow>
        if \<not> s < length (min_sizes c) then Inl OutOfRange
        else
          let min_size = min_sizes c ! s;
              e1 = write_prior c h w center_x center_y
                     (real_of_int min_size) (real_of_int min_size) e_boxes idx;
              idx1 = idx + 1
          in if length (max_sizes c) > 0
             then
               if \<not> s < length (max_sizes c) then Inl OutOfRange
               else
                 let max_size = max_sizes c ! s
                 in if \<not> int_range (min_size * max_size) then Inl SignedOverflow
                    else
                      let e2 = write_prior c h w center_x center_y
                                 (sqrt (real_of_int (min_size * max_size)))
                                 (sqrt (real_of_int (min_size * max_size))) e1 idx1
                      in Inr (rest_of_priors c h w center_x center_y min_size ratios
                                (e2, idx1 + 1))
             else Inr (rest_of_priors c h w center_x center_y min_size ratios (e1, idx1)))"

text \<open>A counted \<^verbatim>\<open>for\<close> loop whose body may fail: the first failure ends it.\<close>

fun for_each :: "nat list \<Rightarrow> (nat \<Rightarrow> 's \<Rightarrow> error + 's) \<Rightarrow> 's \<Rightarrow> error + 's" where
  "for_each [] body st = Inr st"
| "for_each (i # is) body st =
     (case body i st of Inl err \<Rightarrow> Inl err | Inr st' \<Rightarrow> for_each is body st')"

text \<open>The body of the loop over \<open>w\<close>: one cell. It returns the tensor and the last \<open>idx\<close>.\<close>

definition cell :: "ExecutionContext \<Rightarrow> real list \<Rightarrow> nat \<Rightarrow> nat \<Rightarrow> tensor4 \<Rightarrow> error + tensor4 \<times> nat" where
  "cell c ratios h w e_boxes =
     (let center_x = (real w + offset c) * step_width c;
          center_y = (real h + offset c) * step_height c
      in for_each [0 ..< length (min_sizes c)]
           (size_body c ratios h w center_x center_y) (e_boxes, 0))"

definition cell_body :: "ExecutionContext \<Rightarrow> real list \<Rightarrow> nat \<Rightarrow> nat \<Rightarrow> tensor4 \<Rightarrow> error + tensor4" where
  "cell_body c ratios h w e_boxes =
     (case cell c ratios h w e_boxes of Inl err \<Rightarrow> Inl err | Inr st \<Rightarrow> Inr (fst st))"

definition row_body :: "ExecutionContext \<Rightarrow> real list \<Rightarrow> nat \<Rightarrow> tensor4 \<Rightarrow> error + tensor4" where
  "row_body c ratios h e_boxes =
     for_each [0 ..< layer_width c] (cell_body c ratios h) e_boxes"

text \<open>The tensor as \<^verbatim>\<open>mutable_data\<close> hands it over: nothing written.\<close>

definition unwritten :: tensor4 where
  "unwritten = (\<lambda>key. None)"

text \<open>The two outer loops.\<close>

definition PriorBoxGenerator :: "ExecutionContext \<Rightarrow> error + tensor4" where
  "PriorBoxGenerator c =
     for_each [0 ..< layer_height c]
       (row_body c (ExpandAspectRatios (aspect_ratios c) (flip c))) unwritten"

subsection \<open>Clipping, variances, and the whole of Compute\<close>

text \<open>\<^verbatim>\<open>platform::Transform\<close> over the whole buffer, written back in place.\<close>

definition Transform :: "(real \<Rightarrow> real) \<Rightarrow> tensor4 \<Rightarrow> tensor4" where
  "Transform f e_boxes = (\<lambda>k. map_option f (e_boxes k))"

text \<open>\<^verbatim>\<open>var_et.broadcast(box_num, 1)\<close>: \<open>box_num\<close> rows, each the row \<open>var_et\<close>.\<close>

definition box_num :: "ExecutionContext \<Rightarrow> nat" where
  "box_num c = layer_height c * layer_width c * num_priors c"

definition VarianceBroadcaster :: "ExecutionContext \<Rightarrow> real list list" where
  "VarianceBroadcaster c = replicate (box_num c) (variances c)"

definition Compute :: "ExecutionContext \<Rightarrow> error + tensor4 \<times> real list list" where
  "Compute c =
     (case PriorBoxGenerator c of
        Inl err \<Rightarrow> Inl err
      | Inr e_boxes \<Rightarrow>
          Inr (if clip c then Transform ClipFunctor e_boxes else e_boxes,
               VarianceBroadcaster c))"


section \<open>The specification's reading of the output\<close>

text \<open>
  The definitions of this section follow the words of the specification, not the
  code; the theorems below compare the two.

  A ratio is a unit ratio when it is within \<open>1e-6\<close> of \<open>1\<close>, a non-unit ratio otherwise.
\<close>

definition non_unit :: "real \<Rightarrow> bool" where
  "non_unit r = (\<bar>r - 1\<bar> \<ge> 1 / 1000000)"

text \<open>
  The (width, height) pairs of one min-size index \<open>s\<close>, in the specification's order:
  the ratio-1 box, the max-size variant if any, the other ratios in expansion order.
\<close>

definition spec_size_order :: "ExecutionContext \<Rightarrow> real list \<Rightarrow> nat \<Rightarrow> (real \<times> real) list" where
  "spec_size_order c ratios s =
     (let a = real_of_int (min_sizes c ! s)
      in [(a, a)]
         @ (if max_sizes c \<noteq> []
            then [(sqrt (a * real_of_int (max_sizes c ! s)),
                   sqrt (a * real_of_int (max_sizes c ! s)))]
            else [])
         @ map (\<lambda>r. (a * sqrt r, a / sqrt r)) (filter non_unit ratios))"

text \<open>Min-size-major: the blocks of the indices \<open>0, 1, \<dots>\<close> one after the other.\<close>

definition spec_cell_order :: "ExecutionContext \<Rightarrow> real list \<Rightarrow> (real \<times> real) list" where
  "spec_cell_order c ratios =
     concat (map (spec_size_order c ratios) [0 ..< length (min_sizes c)])"

definition center_x :: "ExecutionContext \<Rightarrow> nat \<Rightarrow> real" where
  "center_x c w = (real w + offset c) * step_width c"

definition center_y :: "ExecutionContext \<Rightarrow> nat \<Rightarrow> real" where
  "center_y c h = (real h + offset c) * step_height c"

text \<open>Coordinate \<open>k\<close> of the box of width \<open>fst d\<close> and height \<open>snd d\<close> around a centre.\<close>

definition spec_coordinate :: "ExecutionContext \<Rightarrow> real \<Rightarrow> real \<Rightarrow> real \<times> real \<Rightarrow> nat \<Rightarrow> real" where
  "spec_coordinate c cx cy d k =
     (if k = 0 then (cx - fst d / 2) / real (img_width c)
      else if k = 1 then (cy - snd d / 2) / real (img_height c)
      else if k = 2 then (cx + fst d / 2) / real (img_width c)
      else (cy + snd d / 2) / real (img_height c))"


text \<open>The four entries of the tensor at \<open>(h, w, idx)\<close>.\<close>

definition read_box :: "tensor4 \<Rightarrow> nat \<Rightarrow> nat \<Rightarrow> nat \<Rightarrow> real option list" where
  "read_box e h w idx = [e (h, w, idx, 0), e (h, w, idx, 1), e (h, w, idx, 2), e (h, w, idx, 3)]"

text \<open>The whole tensor in closed form.\<close>

definition in_cell :: "ExecutionContext \<Rightarrow> real list \<Rightarrow> nat \<times> nat \<times> nat \<times> nat \<Rightarrow> bool" where
  "in_cell c ratios key =
     (case key of (h, w, i, k) \<Rightarrow> i < length (spec_cell_order c ratios) \<and> k < 4)"

definition spec_entry :: "ExecutionContext \<Rightarrow> real list \<Rightarrow> nat \<times> nat \<times> nat \<times> nat \<Rightarrow> real" where
  "spec_entry c ratios key =
     (case key of (h, w, i, k) \<Rightarrow>
        spec_coordinate c (center_x c w) (center_y c h) (spec_cell_order c ratios ! i) k)"

definition spec_boxes :: "ExecutionContext \<Rightarrow> real list \<Rightarrow> tensor4" where
  "spec_boxes c ratios =
     (\<lambda>key. if fst key < layer_height c \<and> fst (snd key) < layer_width c \<and> in_cell c ratios key
            then Some (spec_entry c ratios key) else None)"

text \<open>
  The configurations on which no round of the loop over \<open>s\<close> leaves defined behaviour:
  \<^verbatim>\<open>max_sizes[s]\<close> exists when it is read, and the \<^verbatim>\<open>int\<close> product fits.
\<close>

definition size_ok :: "ExecutionContext \<Rightarrow> nat \<Rightarrow> bool" where
  "size_ok c s =
     (s < length (min_sizes c) \<and>
      (max_sizes c \<noteq> [] \<longrightarrow>
         s < length (max_sizes c) \<and> int_range (min_sizes c ! s * max_sizes c ! s)))"

definition sizes_ok :: "ExecutionContext \<Rightarrow> bool" where
  "sizes_ok c = (\<forall>s\<in>set [0 ..< length (min_sizes c)]. size_ok c s)"

text \<open>
  Writing a list of (width, height) pairs at consecutive indices: what each of the
  inner loops amounts to.
\<close>

fun emit ::
  "ExecutionContext \<Rightarrow> nat \<Rightarrow> nat \<Rightarrow> real \<Rightarrow> real \<Rightarrow> (real \<times> real) list \<Rightarrow> tensor4 \<times> nat
     \<Rightarrow> tensor4 \<times> nat" where
  "emit c h w cx cy [] st = st"
| "emit c h w cx cy (d # ds) st =
     emit c h w cx cy ds
       (write_prior c h w cx cy (fst d) (snd d) (fst st) (snd st), snd st + 1)"

text \<open>
  What one cell, one row of cells and all rows leave in the tensor: the entries selected
  by \<open>A\<close> get the specification's values, the others keep theirs.
\<close>

definition cell_update ::
  "ExecutionContext \<Rightarrow> real list \<Rightarrow> (nat \<times> nat \<times> nat \<times> nat \<Rightarrow> bool) \<Rightarrow> tensor4 \<Rightarrow> tensor4" where
  "cell_update c ratios A e =
     (\<lambda>key. if A key \<and> in_cell c ratios key then Some (spec_entry c ratios key) else e key)"


section \<open>Example configurations\<close>

text \<open>A 1x1 layer on a 300x300 image, one min size, nothing else.\<close>

definition geometry_example :: ExecutionContext where
  "geometry_example =
     \<lparr>min_sizes = [30], max_sizes = [], aspect_ratios = [], variances = [1/10, 1/10, 1/5, 1/5],
      flip = False, clip = False, step_w = 0, step_h = 0, offset = 1/2,
      img_width = 300, img_height = 300, layer_width = 1, layer_height = 1\<rparr>"






text \<open>A box larger than the image, clipped.\<close>

definition clip_example :: ExecutionContext where
  "clip_example = geometry_example\<lparr>min_sizes := [400], clip := True\<rparr>"

section \<open>Aspect-ratio expansion\<close>



lemma expand_loop_prefix: "\<exists>ys. expand_loop rs f out = out @ ys"
proof (induction rs arbitrary: out)
  case Nil
  then show ?case by simp
next
  case (Cons r rs)
  obtain ys1 where 1: "expand_loop rs f out = out @ ys1"
    using Cons.IH by blast
  obtain ys2 where 2: "expand_loop rs f (out @ [r]) = (out @ [r]) @ ys2"
    using Cons.IH by blast
  obtain ys3 where 3: "expand_loop rs f ((out @ [r]) @ [1 / r]) = ((out @ [r]) @ [1 / r]) @ ys3"
    using Cons.IH by blast
  show ?case
    using 1 2 3 by auto
qed



section \<open>Clipping one value\<close>


section \<open>Counts and steps\<close>


text \<open>
  Claim C7. When \<open>step_w\<close> and \<open>step_h\<close> are both non-zero they are the steps; when either
  is zero, the steps are the quotients of the image extents by the layer extents, as
  real numbers.
\<close>

theorem step_resolution:
  "(step_w c \<noteq> 0 \<and> step_h c \<noteq> 0 \<longrightarrow> step_width c = step_w c \<and> step_height c = step_h c)
   \<and> (step_w c = 0 \<or> step_h c = 0 \<longrightarrow>
        step_width c = real (img_width c) / real (layer_width c)
        \<and> step_height c = real (img_height c) / real (layer_height c))"
  by (simp add: step_width_def step_height_def)

theorem step_resolution_witness:
  "step_width geometry_example = 300 \<and> step_height geometry_example = 300
   \<and> step_width (geometry_example\<lparr>step_w := 8, step_h := 16\<rparr>) = 8
   \<and> step_height (geometry_example\<lparr>step_w := 8, step_h := 16\<rparr>) = 16
   \<and> step_width (geometry_example\<lparr>step_w := 8\<rparr>) = 300"
  using step_resolution[of geometry_example]
    step_resolution[of "geometry_example\<lparr>step_w := 8, step_h := 16\<rparr>"]
    step_resolution[of "geometry_example\<lparr>step_w := 8\<rparr>"]
  by (simp add: geometry_example_def)

section \<open>The loops in closed form\<close>

lemma emit_append:
  "emit c h w cx cy (xs @ ys) st = emit c h w cx cy ys (emit c h w cx cy xs st)"
  by (induction xs arbitrary: st) auto

lemma snd_emit: "snd (emit c h w cx cy ds st) = snd st + length ds"
  by (induction ds arbitrary: st) auto

lemma write_prior_lookup:
  "write_prior c h w cx cy bw bh e idx (h', w', i, k) =
     (if h' = h \<and> w' = w \<and> i = idx \<and> k < 4 then Some (spec_coordinate c cx cy (bw, bh) k)
      else e (h', w', i, k))"
  by (auto simp: write_prior_def spec_coordinate_def)

lemma fst_emit:
  "fst (emit c h w cx cy ds st) (h', w', i, k) =
     (if h' = h \<and> w' = w \<and> snd st \<le> i \<and> i < snd st + length ds \<and> k < 4
      then Some (spec_coordinate c cx cy (ds ! (i - snd st)) k)
      else fst st (h', w', i, k))"
proof (induction ds arbitrary: st)
  case Nil
  then show ?case by auto
next
  case (Cons d ds)
  show ?case
    by (auto simp: Cons.IH write_prior_lookup nth_Cons' Suc_diff_le)
qed

lemma rest_of_priors_emit:
  "rest_of_priors c h w cx cy m ars st =
     emit c h w cx cy
       (map (\<lambda>r. (real_of_int m * sqrt r, real_of_int m / sqrt r)) (filter non_unit ars)) st"
  by (induction c h w cx cy m ars st rule: rest_of_priors.induct)
    (auto simp: non_unit_def not_less)

lemma size_body_emit:
  "size_body c ratios h w cx cy s st =
     (if size_ok c s then Inr (emit c h w cx cy (spec_size_order c ratios s) st)
      else if s < length (min_sizes c) \<and> s < length (max_sizes c) then Inl SignedOverflow
      else Inl OutOfRange)"
  by (cases st)
    (auto simp: size_body_def size_ok_def spec_size_order_def Let_def rest_of_priors_emit)

lemma for_each_sizes:
  "for_each ss (size_body c ratios h w cx cy) st = Inr st' \<Longrightarrow>
     st' = emit c h w cx cy (concat (map (spec_size_order c ratios) ss)) st \<and>
     (\<forall>s\<in>set ss. size_ok c s)"
proof (induction ss arbitrary: st)
  case Nil
  then show ?case by simp
next
  case (Cons s ss)
  then show ?case
    by (auto simp: size_body_emit emit_append split: if_splits sum.splits)
qed

lemma for_each_sizes_ok:
  "\<forall>s\<in>set ss. size_ok c s \<Longrightarrow>
     for_each ss (size_body c ratios h w cx cy) st =
       Inr (emit c h w cx cy (concat (map (spec_size_order c ratios) ss)) st)"
  by (induction ss arbitrary: st) (auto simp: size_body_emit emit_append)

lemma cell_Inr:
  "cell c ratios h w e = Inr st \<longleftrightarrow>
     sizes_ok c \<and>
     st = emit c h w (center_x c w) (center_y c h) (spec_cell_order c ratios) (e, 0)"
  unfolding cell_def Let_def sizes_ok_def spec_cell_order_def center_x_def center_y_def
  using for_each_sizes for_each_sizes_ok by blast

lemma cell_body_Inr:
  "cell_body c ratios h w e = Inr e' \<longleftrightarrow>
     sizes_ok c \<and>
     e' = cell_update c ratios (\<lambda>key. fst key = h \<and> fst (snd key) = w) e"
proof -
  have "fst (emit c h w (center_x c w) (center_y c h) (spec_cell_order c ratios) (e, 0)) =
        cell_update c ratios (\<lambda>key. fst key = h \<and> fst (snd key) = w) e"
    by (auto simp: fun_eq_iff fst_emit cell_update_def in_cell_def spec_entry_def)
  moreover have "cell_body c ratios h w e = Inr e' \<longleftrightarrow>
     sizes_ok c \<and>
     e' = fst (emit c h w (center_x c w) (center_y c h) (spec_cell_order c ratios) (e, 0))"
  proof (cases "sizes_ok c")
    case True
    then have "cell c ratios h w e =
        Inr (emit c h w (center_x c w) (center_y c h) (spec_cell_order c ratios) (e, 0))"
      by (simp add: cell_Inr)
    with True show ?thesis by (auto simp: cell_body_def)
  next
    case False
    then have "\<And>st. cell c ratios h w e \<noteq> Inr st"
      by (simp add: cell_Inr)
    with False show ?thesis
      by (cases "cell c ratios h w e") (auto simp: cell_body_def)
  qed
  ultimately show ?thesis by simp
qed

lemma for_each_Inr_lookup:
  assumes body: "\<And>i st st'. body i st = Inr st' \<longleftrightarrow> P \<and> st' = cell_update c ratios (A i) st"
  shows "for_each xs body st = Inr st' \<longleftrightarrow>
           (xs \<noteq> [] \<longrightarrow> P) \<and> st' = cell_update c ratios (\<lambda>key. \<exists>i\<in>set xs. A i key) st"
proof (induction xs arbitrary: st)
  case Nil
  then show ?case by (auto simp: cell_update_def)
next
  case (Cons x xs)
  show ?case
  proof (cases "body x st")
    case (Inl err)
    then have "\<not> P" using body[of x st "cell_update c ratios (A x) st"] by auto
    with Inl show ?thesis by simp
  next
    case (Inr st1)
    then have P: P and st1: "st1 = cell_update c ratios (A x) st"
      using body[of x st st1] by auto
    have "for_each (x # xs) body st = for_each xs body st1"
      using Inr by simp
    moreover have "cell_update c ratios (\<lambda>key. \<exists>i\<in>set xs. A i key) st1 =
                   cell_update c ratios (\<lambda>key. \<exists>i\<in>set (x # xs). A i key) st"
      by (auto simp: st1 cell_update_def fun_eq_iff)
    ultimately show ?thesis
      using P by (simp add: Cons.IH)
  qed
qed

lemma row_body_Inr:
  "row_body c ratios h e = Inr e' \<longleftrightarrow>
     (layer_width c \<noteq> 0 \<longrightarrow> sizes_ok c) \<and>
     e' = cell_update c ratios (\<lambda>key. fst key = h \<and> fst (snd key) < layer_width c) e"
proof -
  have "(\<lambda>key. \<exists>w\<in>set [0 ..< layer_width c]. fst key = h \<and> fst (snd key) = w) =
        (\<lambda>key. fst key = h \<and> fst (snd key) < layer_width c)"
    by (auto simp: fun_eq_iff)
  then show ?thesis
    unfolding row_body_def
    using for_each_Inr_lookup[of "cell_body c ratios h" "sizes_ok c" c ratios
        "\<lambda>w key. fst key = h \<and> fst (snd key) = w" "[0 ..< layer_width c]" e e',
        OF cell_body_Inr]
    by simp
qed

lemma PriorBoxGenerator_Inr:
  "PriorBoxGenerator c = Inr e \<longleftrightarrow>
     (layer_height c \<noteq> 0 \<and> layer_width c \<noteq> 0 \<longrightarrow> sizes_ok c) \<and>
     e = spec_boxes c (ExpandAspectRatios (aspect_ratios c) (flip c))"
proof -
  let ?ratios = "ExpandAspectRatios (aspect_ratios c) (flip c)"
  have "cell_update c ?ratios
          (\<lambda>key. \<exists>h\<in>set [0 ..< layer_height c]. fst key = h \<and> fst (snd key) < layer_width c)
          unwritten = spec_boxes c ?ratios"
    by (auto simp: fun_eq_iff cell_update_def spec_boxes_def unwritten_def)
  then show ?thesis
    unfolding PriorBoxGenerator_def
    using for_each_Inr_lookup[of "row_body c ?ratios" "layer_width c \<noteq> 0 \<longrightarrow> sizes_ok c"
        c ?ratios "\<lambda>h key. fst key = h \<and> fst (snd key) < layer_width c"
        "[0 ..< layer_height c]" unwritten e, OF row_body_Inr]
    by auto
qed


lemma PriorBoxGenerator_total:
  "layer_height c = 0 \<or> layer_width c = 0 \<or> sizes_ok c \<Longrightarrow>
     PriorBoxGenerator c = Inr (spec_boxes c (ExpandAspectRatios (aspect_ratios c) (flip c)))"
  by (auto simp: PriorBoxGenerator_Inr)

lemma sizes_ok_no_max:
  "max_sizes c = [] \<Longrightarrow> sizes_ok c"
  by (simp add: sizes_ok_def size_ok_def)



section \<open>Order and coordinates of the boxes of a cell\<close>









section \<open>Variances\<close>





section \<open>Clipping the buffer\<close>

lemma write_prior_clip:
  "write_prior (c\<lparr>clip := b\<rparr>) h w cx cy bw bh e idx = write_prior c h w cx cy bw bh e idx"
  by (simp add: write_prior_def)

lemma rest_of_priors_clip:
  "rest_of_priors (c\<lparr>clip := b\<rparr>) h w cx cy m ars st = rest_of_priors c h w cx cy m ars st"
proof (induction ars arbitrary: st)
  case Nil
  then show ?case by (cases st) simp
next
  case (Cons ar ars)
  then show ?case by (cases st) (simp add: write_prior_clip)
qed

lemma size_body_clip:
  "size_body (c\<lparr>clip := b\<rparr>) ratios h w cx cy = size_body c ratios h w cx cy"
  by (simp add: fun_eq_iff size_body_def rest_of_priors_clip write_prior_clip Let_def)

lemma PriorBoxGenerator_clip:
  "PriorBoxGenerator (c\<lparr>clip := b\<rparr>) = PriorBoxGenerator c"
proof -
  have cell: "cell (c\<lparr>clip := b\<rparr>) = cell c"
    by (simp add: fun_eq_iff cell_def size_body_clip step_width_def step_height_def)
  have cell_body: "cell_body (c\<lparr>clip := b\<rparr>) = cell_body c"
    by (simp add: fun_eq_iff cell_body_def cell)
  have "row_body (c\<lparr>clip := b\<rparr>) = row_body c"
    by (simp add: fun_eq_iff row_body_def cell_body)
  then show ?thesis
    by (simp add: PriorBoxGenerator_def)
qed

lemma VarianceBroadcaster_clip:
  "VarianceBroadcaster (c\<lparr>clip := b\<rparr>) = VarianceBroadcaster c"
  by (simp add: VarianceBroadcaster_def box_num_def num_priors_def Let_def)

text \<open>
  Claim C8. \<open>Compute\<close> fails exactly as the generator does. When the generator returns the
  tensor \<open>e\<close>, \<open>Compute\<close> returns boxes and variances: with \<open>clip\<close> set, every entry \<open>v\<close>
  of \<open>e\<close> has become \<open>min (max v 0) 1\<close>; with \<open>clip\<close> not set the boxes are \<open>e\<close> itself. The
  variances (and a failure) are the same whether \<open>clip\<close> is set or not.
\<close>

theorem clip_after_generation:
  "(case PriorBoxGenerator c of
      Inl err \<Rightarrow> Compute c = Inl err
    | Inr e \<Rightarrow>
        \<exists>boxes vars. Compute c = Inr (boxes, vars)
          \<and> (clip c \<longrightarrow> (\<forall>key. boxes key = map_option (\<lambda>v. min (max v 0) 1) (e key)))
          \<and> (\<not> clip c \<longrightarrow> boxes = e))
   \<and> map_sum id snd (Compute (c\<lparr>clip := True\<rparr>)) = map_sum id snd (Compute (c\<lparr>clip := False\<rparr>))"
proof
  show "case PriorBoxGenerator c of
      Inl err \<Rightarrow> Compute c = Inl err
    | Inr e \<Rightarrow>
        \<exists>boxes vars. Compute c = Inr (boxes, vars)
          \<and> (clip c \<longrightarrow> (\<forall>key. boxes key = map_option (\<lambda>v. min (max v 0) 1) (e key)))
          \<and> (\<not> clip c \<longrightarrow> boxes = e)"
    by (cases "PriorBoxGenerator c") (auto simp: Compute_def Transform_def ClipFunctor_def[abs_def])
  show "map_sum id snd (Compute (c\<lparr>clip := True\<rparr>)) = map_sum id snd (Compute (c\<lparr>clip := False\<rparr>))"
    by (cases "PriorBoxGenerator c")
      (simp_all add: Compute_def PriorBoxGenerator_clip VarianceBroadcaster_clip)
qed

lemma clip_example_runs:
  "PriorBoxGenerator clip_example = Inr (spec_boxes clip_example [1])"
  using PriorBoxGenerator_total[of clip_example]
  by (simp add: sizes_ok_no_max clip_example_def geometry_example_def ExpandAspectRatios_def)

lemma clip_example_box:
  "read_box (spec_boxes clip_example [1]) 0 0 0 =
     [Some (- (1 / 6)), Some (- (1 / 6)), Some (7 / 6), Some (7 / 6)]"
  by (simp add: read_box_def spec_boxes_def in_cell_def spec_entry_def spec_cell_order_def
        spec_size_order_def spec_coordinate_def center_x_def center_y_def step_width_def
        step_height_def geometry_example_def clip_example_def non_unit_def)

theorem clip_after_generation_witness:
  "map_sum id (\<lambda>out. read_box (fst out) 0 0 0) (Compute clip_example)
     = Inr [Some 0, Some 0, Some 1, Some 1]
   \<and> map_sum id (\<lambda>out. read_box (fst out) 0 0 0) (Compute (clip_example\<lparr>clip := False\<rparr>))
     = Inr [Some (- (1 / 6)), Some (- (1 / 6)), Some (7 / 6), Some (7 / 6)]"
proof -
  have on: "clip clip_example"
    by (simp add: clip_example_def)
  from clip_after_generation[of clip_example] obtain boxes vars
    where run: "Compute clip_example = Inr (boxes, vars)"
      and clipped: "\<forall>key. boxes key = map_option (\<lambda>v. min (max v 0) 1)
                                      (spec_boxes clip_example [1] key)"
    unfolding clip_example_runs using on by auto
  have "read_box boxes 0 0 0 = [Some 0, Some 0, Some 1, Some 1]"
    using clip_example_box by (simp add: read_box_def clipped)
  then have 1: "map_sum id (\<lambda>out. read_box (fst out) 0 0 0) (Compute clip_example)
     = Inr [Some 0, Some 0, Some 1, Some 1]"
    by (simp add: run)
  have off: "\<not> clip (clip_example\<lparr>clip := False\<rparr>)"
    by simp
  from clip_after_generation[of "clip_example\<lparr>clip := False\<rparr>"] obtain boxes' vars'
    where run': "Compute (clip_example\<lparr>clip := False\<rparr>) = Inr (boxes', vars')"
      and same: "boxes' = spec_boxes clip_example [1]"
    unfolding PriorBoxGenerator_clip clip_example_runs using off by auto
  have 2: "map_sum id (\<lambda>out. read_box (fst out) 0 0 0) (Compute (clip_example\<lparr>clip := False\<rparr>))
     = Inr [Some (- (1 / 6)), Some (- (1 / 6)), Some (7 / 6), Some (7 / 6)]"
    by (simp add: run' same clip_example_box)
  show ?thesis
    using 1 2 by (rule conjI)
qed

section \<open>Box corners in order\<close>











section \<open>The emission index and the prior count\<close>

lemma length_spec_size_order:
  "length (spec_size_order c ratios s) =
     1 + (if max_sizes c \<noteq> [] then 1 else 0) + length (filter non_unit ratios)"
  by (simp add: spec_size_order_def Let_def)

lemma length_spec_cell_order:
  "length (spec_cell_order c ratios) =
     length (min_sizes c)
       * (1 + (if max_sizes c \<noteq> [] then 1 else 0) + length (filter non_unit ratios))"
proof -
  have "length (concat (map (spec_size_order c ratios) ss)) =
        length ss * (1 + (if max_sizes c \<noteq> [] then 1 else 0) + length (filter non_unit ratios))"
    for ss
    by (induction ss) (simp_all add: length_spec_size_order)
  then show ?thesis
    by (simp add: spec_cell_order_def)
qed

lemma cell_emission_index:
  "cell c ratios h w e = Inr (e', idx) \<Longrightarrow>
     idx = length (min_sizes c)
             * (1 + (if max_sizes c \<noteq> [] then 1 else 0) + length (filter non_unit ratios))"
proof -
  assume "cell c ratios h w e = Inr (e', idx)"
  then have "(e', idx) =
      emit c h w (center_x c w) (center_y c h) (spec_cell_order c ratios) (e, 0)"
    by (simp add: cell_Inr)
  then have "idx = snd (emit c h w (center_x c w) (center_y c h) (spec_cell_order c ratios) (e, 0))"
    by (metis snd_conv)
  then show ?thesis
    by (simp only: snd_emit length_spec_cell_order snd_conv add_0)
qed



lemma ExpandAspectRatios_unit_head:
  "length (filter non_unit (ExpandAspectRatios rs f)) + 1 \<le> length (ExpandAspectRatios rs f)"
proof -
  obtain ys where ys: "ExpandAspectRatios rs f = [1] @ ys"
    unfolding ExpandAspectRatios_def using expand_loop_prefix[of rs f "[] @ [1]"] by auto
  have "length (filter non_unit ys) \<le> length ys"
    by (rule length_filter_le)
  then show ?thesis
    by (simp add: ys non_unit_def)
qed

text \<open>
  The writes of a completed cell stay inside the third extent of the tensor, which is
  the prior count.
\<close>

lemma emission_index_le_num_priors:
  assumes "cell c (ExpandAspectRatios (aspect_ratios c) (flip c)) h w e = Inr (e', idx)"
  shows "idx \<le> num_priors c"
proof -
  let ?ratios = "ExpandAspectRatios (aspect_ratios c) (flip c)"
  have ok: "sizes_ok c"
    using assms by (simp add: cell_Inr)
  have idx: "idx = length (min_sizes c)
      * (1 + (if max_sizes c \<noteq> [] then 1 else 0) + length (filter non_unit ?ratios))"
    using assms by (rule cell_emission_index)
  have n: "num_priors c = length ?ratios * length (min_sizes c) + length (max_sizes c)"
    by (simp add: num_priors_def Let_def)
  have "length (min_sizes c) * (1 + length (filter non_unit ?ratios))
          \<le> length (min_sizes c) * length ?ratios"
    using ExpandAspectRatios_unit_head[of "aspect_ratios c" "flip c"]
    by (intro mult_le_mono2) simp
  moreover have "max_sizes c \<noteq> [] \<Longrightarrow> length (min_sizes c) \<le> length (max_sizes c)"
  proof (cases "min_sizes c = []")
    case True
    then show ?thesis by simp
  next
    case False
    assume "max_sizes c \<noteq> []"
    then have "length (min_sizes c) - 1 < length (max_sizes c)"
      using ok False by (simp add: sizes_ok_def size_ok_def)
    then show ?thesis by simp
  qed
  ultimately show ?thesis
    unfolding idx n by (cases "max_sizes c = []") (simp_all add: algebra_simps)
qed

text \<open>
  The values of C++ \<^verbatim>\<open>float\<close> between 1 and 2 are the numbers \<open>1 + k / 2^23\<close>. None of
  them is a non-unit ratio with a unit reciprocal: the condition on the ratios in the
  next theorem holds of every list of such values.
\<close>

lemma binary32_reciprocal_non_unit:
  assumes grid: "1 \<le> r \<and> r < 2 \<longrightarrow> (\<exists>k::nat. r = 1 + real k / 2 ^ 23)"
    and r: "\<bar>r - 1\<bar> \<ge> 1 / 1000000"
  shows "\<bar>1 / r - 1\<bar> \<ge> 1 / 1000000"
proof -
  define x where "x = 1 / r"
  consider "r \<le> 0" | "0 < r" "r < 1" | "1 \<le> r" "r < 2" | "2 \<le> r"
    by linarith
  then have "x \<le> 999999 / 1000000 \<or> 1000001 / 1000000 \<le> x"
  proof cases
    case 1
    then have "x \<le> 0" by (simp add: x_def divide_le_0_iff)
    then show ?thesis by linarith
  next
    case 2
    then have "r \<le> 999999 / 1000000" using r by linarith
    then have "1000001 / 1000000 \<le> x"
      using 2 by (simp add: x_def field_simps)
    then show ?thesis by simp
  next
    case 3
    then obtain k :: nat where k: "r = 1 + real k / 2 ^ 23"
      using grid by blast
    then have "real k / 2 ^ 23 \<ge> 1 / 1000000" using r by simp
    then have "real k > 8" by (simp add: field_simps)
    then have "k \<ge> 9" by simp
    then have k9: "real k \<ge> 9" by simp
    have "x = 8388608 / (8388608 + real k)"
      unfolding x_def k by (simp add: field_simps)
    moreover have "8388608 / (8388608 + real k) \<le> (999999 / 1000000 :: real)"
      using k9 by (simp add: field_simps)
    ultimately show ?thesis by simp
  next
    case 4
    then have "x \<le> 1 / 2" by (simp add: x_def field_simps)
    then show ?thesis by linarith
  qed
  then have "\<bar>x - 1\<bar> \<ge> 1 / 1000000"
    by linarith
  then show ?thesis
    by (simp only: x_def)
qed













end
